theory Spec2Isabelle
  imports
    Complex_Main
    "HOL-Library.Sublist"
    "HOL-Library.Char_ord"
    "HOL-Library.List_Lexorder"
    "HOL-Library.Product_Lexorder"
    "HOL-Library.Multiset"
    "HOL-Library.Log_Nat"
begin

section \<open>E-commerce analytics dashboard: the load, join, filter and aggregation pipeline\<close>

text \<open>
  The development embeds the data pipeline of \<^verbatim>\<open>ecommerce_dashboard.py\<close>: the encoding
  fallback of the table loader, the derivation of \<^verbatim>\<open>main_category\<close>, the left joins of the
  fact table with its dimension tables, the derived column \<^verbatim>\<open>profit_margin\<close>, the sidebar
  filters of \<^verbatim>\<open>main\<close> and the branch of the page behind them, the grouping of records and the
  customer segmentation.

  Conventions of the embedding.
  \<^item> A table is the list of its rows, in row order. A nullable cell is an \<open>option\<close>:
    \<open>None\<close> is the missing value (NaN, NaT).
  \<^item> Text is \<open>string\<close>, a list of 8-bit characters: a character is a code point below 256.
  \<^item> A numeric cell is the rational number it holds. The price columns are float64 columns
    of finite numbers. The result of a floating-point division is a \<open>pyfloat\<close>, which adds
    the two infinities and NaN; the quotient of \<^verbatim>\<open>profit_margin\<close> and the interpolation of a
    quantile are taken exactly, and the sign of zero is not part of the model.
  \<^item> The sums and means behind \<^verbatim>\<open>.round(2)\<close> are computed in binary64, operation by operation,
    since the last binary place of a sum decides which way a total at half a cent is rounded.
  \<^item> Calls into the chart and web libraries produce no value the pipeline reads and are left out.
\<close>

subsection \<open>Text: whitespace stripping, substring test, splitting at a delimiter\<close>

text \<open>
  The characters \<^verbatim>\<open>str.strip()\<close> removes are those of which \<^verbatim>\<open>str.isspace()\<close> holds. Among
  the code points below 256 these are tab, line feed, vertical tab, form feed, carriage
  return, the four separators 0x1C to 0x1F, the space, next line (0x85) and the no-break
  space (0xA0).
\<close>

definition is_space :: "char \<Rightarrow> bool" where
  "is_space c \<longleftrightarrow>
     c \<in> set [CHR 0x09, CHR 0x0A, CHR 0x0B, CHR 0x0C, CHR 0x0D,
               CHR 0x1C, CHR 0x1D, CHR 0x1E, CHR 0x1F, CHR 0x20, CHR 0x85, CHR 0xA0]"

definition lstrip :: "string \<Rightarrow> string" where
  "lstrip s = dropWhile is_space s"

definition rstrip :: "string \<Rightarrow> string" where
  "rstrip s = rev (dropWhile is_space (rev s))"

definition strip :: "string \<Rightarrow> string" where
  "strip s = rstrip (lstrip s)"

text \<open>The delimiter of the item description, \<^verbatim>\<open>" - "\<close>.\<close>

definition delim :: string where
  "delim = '' - ''"

text \<open>\<^verbatim>\<open>sep in s\<close>: the separator occurs somewhere in the string.\<close>

fun contains :: "string \<Rightarrow> string \<Rightarrow> bool" where
  "contains sep [] = (sep = [])"
| "contains sep (c # cs) = (prefix sep (c # cs) \<or> contains sep cs)"

text \<open>
  \<^verbatim>\<open>s.split(" - ")\<close>: a scan from the left; at each occurrence of the delimiter the field
  collected so far is closed and the scan goes on behind the delimiter. The first argument
  holds the characters of the open field, last one first.
\<close>

function split_acc :: "string \<Rightarrow> string \<Rightarrow> string list" where
  "split_acc acc [] = [rev acc]"
| "split_acc acc (c # cs) =
     (if prefix delim (c # cs)
      then rev acc # split_acc [] (drop (length delim) (c # cs))
      else split_acc (c # acc) cs)"
  by pat_completeness auto
termination
  by (relation "measure (\<lambda>(acc, s). length s)") (auto simp: delim_def)

definition py_split :: "string \<Rightarrow> string list" where
  "py_split s = split_acc [] s"

text \<open>\<^verbatim>\<open>str(x)\<close> of a missing cell, which pandas holds as the float NaN.\<close>

definition str_nan :: string where
  "str_nan = ''nan''"

text \<open>
  The function applied to every cell of \<^verbatim>\<open>item_dim["desc"]\<close>:
  \<^verbatim>\<open>x.split(" - ")[0].strip() if pd.notna(x) and " - " in x else str(x).strip()\<close>.
  The result of a split is never empty (lemma \<open>split_acc_not_Nil\<close> below), so index 0 exists.
\<close>

definition main_category :: "string option \<Rightarrow> string" where
  "main_category x =
     (case x of
        Some s \<Rightarrow> if contains delim s then strip (hd (py_split s)) else strip s
      | None \<Rightarrow> strip str_nan)"

subsection \<open>Table loader\<close>

text \<open>
  The encodings \<^verbatim>\<open>load_csv_with_encoding\<close> tries, in the order of the source's list.
\<close>

definition encodings :: "string list" where
  "encodings = [''utf-8'', ''latin-1'', ''iso-8859-1'', ''cp1252'', ''utf-8-sig'']"

text \<open>
  Exceptions that leave the loader: the final \<^verbatim>\<open>Exception("Could not load ...")\<close>, and whatever
  \<^verbatim>\<open>pd.read_csv\<close> raises other than a decode error (a missing file, a malformed table).
\<close>

datatype load_error = CouldNotLoad | FileNotFoundError | OtherReadError

text \<open>
  One call of \<^verbatim>\<open>pd.read_csv(filename, encoding=encoding)\<close>: a table, a
  \<^verbatim>\<open>UnicodeDecodeError\<close>, or another exception. Reading is the file system's business; the model
  takes it as a function of the file name and the encoding.
\<close>

datatype 't read_result = Parsed 't | UnicodeDecodeError | Raised load_error

text \<open>
  The \<^verbatim>\<open>for\<close> loop of the loader: a decode error moves on to the next encoding (\<^verbatim>\<open>continue\<close>),
  a table is returned at once, any other exception is not caught here and propagates; the
  \<^verbatim>\<open>raise\<close> behind the loop is reached when the list is used up.
\<close>

fun try_encodings :: "(string \<Rightarrow> 't read_result) \<Rightarrow> string list \<Rightarrow> load_error + 't" where
  "try_encodings rd [] = Inl CouldNotLoad"
| "try_encodings rd (e # es) =
     (case rd e of
        Parsed t \<Rightarrow> Inr t
      | UnicodeDecodeError \<Rightarrow> try_encodings rd es
      | Raised x \<Rightarrow> Inl x)"

definition load_csv_with_encoding ::
  "(string \<Rightarrow> string \<Rightarrow> 't read_result) \<Rightarrow> string \<Rightarrow> load_error + 't" where
  "load_csv_with_encoding read_csv filename = try_encodings (read_csv filename) encodings"

subsection \<open>Floating-point results\<close>

text \<open>
  The value of a float cell that a division has produced: a finite number, an infinity, or
  NaN. NaN is the missing value of a float column (\<^verbatim>\<open>pd.isna\<close> holds of NaN only).
\<close>

datatype pyfloat = Fin rat | PInf | NInf | NaN


text \<open>
  Element-wise division of two float columns. pandas raises nothing on a zero divisor: a
  nonzero dividend gives an infinity of its sign, and zero by zero gives NaN.
\<close>

definition truediv :: "rat \<Rightarrow> rat \<Rightarrow> pyfloat" where
  "truediv a b =
     (if b \<noteq> 0 then Fin (a / b)
      else if a > 0 then PInf
      else if a < 0 then NInf
      else NaN)"

text \<open>Multiplication of a float result by a finite constant.\<close>

fun fmul :: "pyfloat \<Rightarrow> rat \<Rightarrow> pyfloat" where
  "fmul (Fin x) c = Fin (x * c)"
| "fmul PInf c = (if c > 0 then PInf else if c < 0 then NInf else NaN)"
| "fmul NInf c = (if c > 0 then NInf else if c < 0 then PInf else NaN)"
| "fmul NaN c = NaN"

text \<open>
  \<^verbatim>\<open>(total_price - unit_price * 0.7) / total_price * 100\<close>, the expression assigned to the
  column \<^verbatim>\<open>profit_margin\<close>.
\<close>

definition calc_profit_margin :: "rat \<Rightarrow> rat \<Rightarrow> pyfloat" where
  "calc_profit_margin tp up = fmul (truediv (tp - up * (7 / 10)) tp) 100"

subsection \<open>Tables\<close>

text \<open>A key cell; keys are compared as pandas compares them in a merge, missing with missing.\<close>

type_synonym key = "string option"

text \<open>
  A timestamp, as far as the pipeline reads it: the calendar date as its proleptic Gregorian
  ordinal (day 1 is Monday, 1 January of year 1), and the time of day.
\<close>

record timestamp =
  ts_date :: int
  ts_hour :: nat
  ts_minute :: nat

record fact_row =
  payment_key :: key
  coustomer_key :: key
  time_key :: key
  item_key :: key
  store_key :: key
  quantity :: int
  unit_price :: rat
  total_price :: rat

text \<open>The dimension tables, with the columns the pipeline reads.\<close>

record customer_row =
  cd_coustomer_key :: key
  cd_name :: "string option"

record item_row =
  id_item_key :: key
  id_item_name :: "string option"
  id_desc :: "string option"
  id_man_country :: "string option"
  id_supplier :: "string option"

record item_cat_row = item_row +
  id_main_category :: string

record store_row =
  sd_store_key :: key
  sd_division :: "string option"
  sd_district :: "string option"

record 'd time_row =
  td_time_key :: key
  td_date :: "'d option"
  td_year :: "int option"
  td_month :: "int option"
  td_quarter :: "string option"

record trans_row =
  tr_payment_key :: key
  tr_trans_type :: "string option"
  tr_bank_name :: "string option"

text \<open>
  A row of the comprehensive table: the fact row and the columns the five merges add, then
  the derived columns. (\<^verbatim>\<open>month_name\<close> is computed by the source and read by no later stage;
  it is left out.)
\<close>

record unified = fact_row +
  name :: "string option"
  item_name :: "string option"
  main_category_col :: "string option"
  man_country :: "string option"
  supplier :: "string option"
  division :: "string option"
  district :: "string option"
  date :: "timestamp option"
  year :: "int option"
  month :: "int option"
  quarter :: "string option"
  trans_type :: "string option"
  bank_name :: "string option"
  profit_margin :: pyfloat
  weekday :: "string option"

subsection \<open>Data unifier\<close>

text \<open>
  \<^verbatim>\<open>left.merge(right, on=key, how="left")\<close>: every left row, in the order of the left table, is
  paired with each right row of the same key, in the order of the right table; a left row
  without a partner is kept once, with the right side missing.
\<close>

definition merge_left ::
  "('a \<Rightarrow> 'k) \<Rightarrow> ('b \<Rightarrow> 'k) \<Rightarrow> 'a list \<Rightarrow> 'b list \<Rightarrow> ('a \<times> 'b option) list" where
  "merge_left kl kr ls rs =
     concat (map (\<lambda>l. case filter (\<lambda>r. kr r = kl l) rs of
                          [] \<Rightarrow> [(l, None)]
                        | ms \<Rightarrow> map (\<lambda>r. (l, Some r)) ms) ls)"

text \<open>
  \<^verbatim>\<open>pd.to_datetime(time_dim["date"], format="%d-%m-%Y %H:%M", errors="coerce")\<close>: the library's
  parser is a parameter, \<open>None\<close> where it rejects the text; a missing cell stays missing.
\<close>

definition convert_date :: "(string \<Rightarrow> timestamp option) \<Rightarrow> string time_row \<Rightarrow> timestamp time_row" where
  "convert_date to_datetime t =
     \<lparr>td_time_key = td_time_key t,
      td_date = (case td_date t of None \<Rightarrow> None | Some s \<Rightarrow> to_datetime s),
      td_year = td_year t, td_month = td_month t, td_quarter = td_quarter t\<rparr>"

text \<open>\<^verbatim>\<open>item_dim["main_category"] = item_dim["desc"].apply(...)\<close>.\<close>

definition add_main_category :: "item_row \<Rightarrow> item_cat_row" where
  "add_main_category i = item_row.extend i (item_cat_row.fields (main_category (id_desc i)))"

text \<open>\<^verbatim>\<open>trans_dim["bank_name"].replace("None", np.nan)\<close>.\<close>

definition replace_None :: "trans_row \<Rightarrow> trans_row" where
  "replace_None p = p\<lparr>tr_bank_name := (if tr_bank_name p = Some ''None'' then None else tr_bank_name p)\<rparr>"

text \<open>\<^verbatim>\<open>.dt.day_name()\<close>, from the ordinal of the date.\<close>

definition day_names :: "string list" where
  "day_names = [''Monday'', ''Tuesday'', ''Wednesday'', ''Thursday'', ''Friday'',
                ''Saturday'', ''Sunday'']"

definition day_name :: "timestamp \<Rightarrow> string" where
  "day_name t = day_names ! nat ((ts_date t - 1) mod 7)"

text \<open>
  One row of the merged table, with the derived columns \<^verbatim>\<open>profit_margin\<close> and
  \<^verbatim>\<open>weekday\<close> added. A column of a dimension without a partner row is missing.
\<close>

definition assemble ::
  "((((fact_row \<times> customer_row option) \<times> item_cat_row option) \<times> store_row option)
      \<times> timestamp time_row option) \<times> trans_row option \<Rightarrow> unified" where
  "assemble x =
     (case x of (((((f, c), i), s), t), p) \<Rightarrow>
        fact_row.extend f (unified.fields
          (Option.bind c cd_name)
          (Option.bind i id_item_name)
          (map_option id_main_category i)
          (Option.bind i id_man_country)
          (Option.bind i id_supplier)
          (Option.bind s sd_division)
          (Option.bind s sd_district)
          (Option.bind t td_date)
          (Option.bind t td_year)
          (Option.bind t td_month)
          (Option.bind t td_quarter)
          (Option.bind p tr_trans_type)
          (Option.bind p tr_bank_name)
          (calc_profit_margin (total_price f) (unit_price f))
          (map_option day_name (Option.bind t td_date))))"

text \<open>
  The body of \<^verbatim>\<open>load_data\<close> behind the six reads: the three cleaning steps, the chain of five
  left merges anchored on the fact table, and the derived columns.
\<close>

definition comprehensive_data ::
  "(string \<Rightarrow> timestamp option) \<Rightarrow> fact_row list \<Rightarrow> customer_row list \<Rightarrow> item_row list \<Rightarrow>
   store_row list \<Rightarrow> string time_row list \<Rightarrow> trans_row list \<Rightarrow> unified list" where
  "comprehensive_data to_datetime fact_table customer_dim item_dim store_dim time_dim trans_dim =
     (let time_dim' = map (convert_date to_datetime) time_dim;
          item_dim' = map add_main_category item_dim;
          trans_dim' = map replace_None trans_dim;
          m1 = merge_left coustomer_key cd_coustomer_key fact_table customer_dim;
          m2 = merge_left (item_key \<circ> fst) id_item_key m1 item_dim';
          m3 = merge_left (store_key \<circ> fst \<circ> fst) sd_store_key m2 store_dim;
          m4 = merge_left (time_key \<circ> fst \<circ> fst \<circ> fst) td_time_key m3 time_dim';
          m5 = merge_left (payment_key \<circ> fst \<circ> fst \<circ> fst \<circ> fst) tr_payment_key m4 trans_dim'
      in map assemble m5)"

subsection \<open>Filter stage\<close>

text \<open>
  The comparison \<^verbatim>\<open>(data["date"].dt.date >= lo) & (data["date"].dt.date <= hi)\<close> of one row:
  a missing date compares false with every bound.
\<close>

definition in_date_range :: "int \<Rightarrow> int \<Rightarrow> unified \<Rightarrow> bool" where
  "in_date_range lo hi r =
     (case date r of None \<Rightarrow> False | Some t \<Rightarrow> lo \<le> ts_date t \<and> ts_date t \<le> hi)"

text \<open>
  The three filters of \<^verbatim>\<open>main\<close>. The date widget hands over a tuple of dates; the date filter
  runs when the tuple has two entries. An empty selection of divisions or of payment methods
  is falsy and skips its filter. \<^verbatim>\<open>isin\<close> matches a missing cell with a missing entry of the
  selection.
\<close>

definition apply_filters ::
  "int list \<Rightarrow> string option list \<Rightarrow> string option list \<Rightarrow> unified list \<Rightarrow> unified list" where
  "apply_filters date_range divisions payment_methods data =
     (let d1 = (if length date_range = 2
                then filter (in_date_range (date_range ! 0) (date_range ! 1)) data
                else data);
          d2 = (if divisions \<noteq> [] then filter (\<lambda>r. division r \<in> set divisions) d1 else d1);
          d3 = (if payment_methods \<noteq> []
                then filter (\<lambda>r. trans_type r \<in> set payment_methods) d2
                else d2)
      in d3)"

text \<open>The cells of a column that are not missing.\<close>

definition non_null :: "'a option list \<Rightarrow> 'a list" where
  "non_null xs = [x. Some x \<leftarrow> xs]"

text \<open>
  The default of the date widget, \<^verbatim>\<open>[data["date"].min().date(), data["date"].max().date()]\<close>:
  minimum and maximum skip missing dates; there is no such range when no row has a date.
\<close>

definition full_date_range :: "unified list \<Rightarrow> int list option" where
  "full_date_range data =
     (case map ts_date (non_null (map date data)) of
        [] \<Rightarrow> None
      | d # ds \<Rightarrow> Some [Min (set (d # ds)), Max (set (d # ds))])"

subsection \<open>The page behind the filters\<close>

text \<open>
  \<^verbatim>\<open>data["date"].min()\<close> and \<^verbatim>\<open>data["date"].max()\<close>: the earliest and the latest timestamp of the
  column, missing ones skipped; NaT (\<open>None\<close>) when no row has a date, so also for no row.
\<close>

definition ts_key :: "timestamp \<Rightarrow> int \<times> nat \<times> nat" where
  "ts_key t = (ts_date t, ts_hour t, ts_minute t)"

definition date_min :: "unified list \<Rightarrow> timestamp option" where
  "date_min data =
     (case non_null (map date data) of
        [] \<Rightarrow> None
      | t # ts \<Rightarrow> Some (fold (\<lambda>a m. if ts_key a < ts_key m then a else m) ts t))"

definition date_max :: "unified list \<Rightarrow> timestamp option" where
  "date_max data =
     (case non_null (map date data) of
        [] \<Rightarrow> None
      | t # ts \<Rightarrow> Some (fold (\<lambda>a m. if ts_key m < ts_key a then a else m) ts t))"

text \<open>
  \<^verbatim>\<open>.strftime('%Y-%m-%d')\<close>: on NaT the call raises \<^verbatim>\<open>ValueError\<close> (NaTType does not support
  strftime). The text of a date goes to the sidebar and is read by nothing; the model keeps
  the timestamp in its place.
\<close>

datatype main_error = ValueError

definition strftime :: "timestamp option \<Rightarrow> main_error + timestamp" where
  "strftime t = (case t of None \<Rightarrow> Inl ValueError | Some x \<Rightarrow> Inr x)"

text \<open>
  The part of \<^verbatim>\<open>main\<close> behind the filters: the sidebar line that formats the earliest and the
  latest date of the filtered records, then the branch on \<^verbatim>\<open>len(data) > 0\<close> between the
  sections of the dashboard and the message that no data is available. The result is the
  branch that \<^verbatim>\<open>main\<close> enters, or the exception that ends it before.
\<close>

datatype content = Dashboard_sections | No_data_message

definition main_display :: "unified list \<Rightarrow> main_error + content" where
  "main_display data =
     (case strftime (date_min data) of
        Inl e \<Rightarrow> Inl e
      | Inr lo \<Rightarrow>
          (case strftime (date_max data) of
             Inl e \<Rightarrow> Inl e
           | Inr hi \<Rightarrow> Inr (if length data > 0 then Dashboard_sections else No_data_message)))"

subsection \<open>Grouping\<close>

text \<open>
  \<^verbatim>\<open>data.groupby(key)\<close>: one group for each distinct key that is not missing, the groups in
  ascending order of the key, the rows of a group in table order.
\<close>

definition group_keys :: "('r \<Rightarrow> 'k::linorder option) \<Rightarrow> 'r list \<Rightarrow> 'k list" where
  "group_keys key rows = sort (remdups (non_null (map key rows)))"

definition group_rows :: "('r \<Rightarrow> 'k option) \<Rightarrow> 'k \<Rightarrow> 'r list \<Rightarrow> 'r list" where
  "group_rows key k rows = filter (\<lambda>r. key r = Some k) rows"

text \<open>
  The groups with the sum of a column each; the sum is taken exactly here, the properties
  below read the keys of the groups only.
\<close>

definition groupby_sum ::
  "('r \<Rightarrow> 'k::linorder option) \<Rightarrow> ('r \<Rightarrow> 'v::monoid_add) \<Rightarrow> 'r list \<Rightarrow> ('k \<times> 'v) list" where
  "groupby_sum key val rows =
     map (\<lambda>k. (k, sum_list (map val (group_rows key k rows)))) (group_keys key rows)"

subsection \<open>Binary floating point\<close>

text \<open>\<^verbatim>\<open>np.rint\<close>: the nearest integer, a tie going to the even one.\<close>

definition rint :: "rat \<Rightarrow> int" where
  "rint x =
     (let f = \<lfloor>x\<rfloor>; d = x - of_int f
      in if d < 1 / 2 then f
         else if d > 1 / 2 then f + 1
         else if even f then f else f + 1)"

text \<open>The power of two of an integer exponent.\<close>

definition pow2 :: "int \<Rightarrow> rat" where
  "pow2 e = (if 0 \<le> e then 2 ^ nat e else 1 / 2 ^ nat (- e))"

text \<open>
  The binary exponent of a positive number \<open>x\<close>, the \<open>e\<close> with \<open>2 ^ e \<le> x < 2 ^ (e + 1)\<close>
  (lemma \<open>ilog2_bounds\<close> below): read off the bit length of the integer part of \<open>x\<close>, or of
  \<open>1 / x\<close> when \<open>x\<close> is below 1, and corrected by one where \<open>1 / x\<close> is no power of two.
\<close>

definition ilog2 :: "rat \<Rightarrow> int" where
  "ilog2 x =
     (let c = (if 1 \<le> x then bitlen \<lfloor>x\<rfloor> - 1 else 1 - bitlen \<lfloor>1 / x\<rfloor>)
      in if pow2 c \<le> x then c else c - 1)"

text \<open>
  The float64 nearest to \<open>x\<close>, a tie going to the one with an even significand: \<open>x\<close> is
  rounded to a multiple of the unit in the last of 53 binary places; below \<open>2 ^ - 1022\<close> the
  unit stays \<open>2 ^ - 1074\<close>. Every arithmetic operation on float64 numbers gives this rounding
  of its exact result. Overflow to an infinity is not modelled, the columns holding finite
  numbers far below \<open>2 ^ 1024\<close>.
\<close>

definition b64 :: "rat \<Rightarrow> rat" where
  "b64 x =
     (if x = 0 then 0
      else let u = pow2 (max (ilog2 \<bar>x\<bar>) (- 1022) - 52)
           in of_int (rint (x / u)) * u)"

text \<open>
  \<^verbatim>\<open>groupby(...).sum()\<close> of a float64 column. pandas adds the rows of a group in table order
  by Kahan's compensated summation: per row \<^verbatim>\<open>y = val - compensation\<close>, \<^verbatim>\<open>t = sumx + y\<close>,
  \<^verbatim>\<open>compensation = t - sumx - y\<close>, \<^verbatim>\<open>sumx = t\<close>, each operation in float64. A cell is read as the
  float64 nearest to its number.
\<close>

definition kahan_step :: "rat \<times> rat \<Rightarrow> rat \<Rightarrow> rat \<times> rat" where
  "kahan_step sc val =
     (case sc of (sumx, compensation) \<Rightarrow>
        let y = b64 (val - compensation);
            t = b64 (sumx + y)
        in (t, b64 (b64 (t - sumx) - y)))"

definition group_sum :: "rat list \<Rightarrow> rat" where
  "group_sum vals = fst (foldl kahan_step (0, 0) (map b64 vals))"

text \<open>
  \<^verbatim>\<open>groupby(...).mean()\<close>: the sum by the same loop, divided by the number of rows; NaN for no
  row.
\<close>

definition group_mean :: "rat list \<Rightarrow> pyfloat" where
  "group_mean vals =
     (if vals = [] then NaN else Fin (b64 (group_sum vals / of_nat (length vals))))"

text \<open>
  \<^verbatim>\<open>.round(2)\<close> on a float64 column: numpy multiplies by 100, rounds to the nearest integer
  and divides by 100, three float64 operations. The result is the float64 nearest to a number
  of two decimals as long as the scaled value is below \<open>2 ^ 52\<close>.
\<close>

definition np_round2 :: "rat \<Rightarrow> rat" where
  "np_round2 x = b64 (of_int (rint (b64 (x * 100))) / 100)"

fun fround2 :: "pyfloat \<Rightarrow> pyfloat" where
  "fround2 (Fin x) = Fin (np_round2 x)"
| "fround2 PInf = PInf"
| "fround2 NInf = NInf"
| "fround2 NaN = NaN"

text \<open>The sum of an int64 column wraps around at 64 bits.\<close>

definition int64 :: "int \<Rightarrow> int" where
  "int64 x = (x + 2 ^ 63) mod 2 ^ 64 - 2 ^ 63"

subsection \<open>Customer segmentation\<close>

text \<open>
  The table \<^verbatim>\<open>customer_metrics\<close> of \<^verbatim>\<open>create_customer_analysis\<close>: per customer the sum, the mean
  and the count of \<^verbatim>\<open>total_price\<close> and the sum of \<^verbatim>\<open>quantity\<close>, all rounded to two decimals
  (which leaves the two int64 columns as they are).
\<close>

record customer_metric =
  cm_coustomer_key :: string
  Total_Spent :: rat
  Avg_Order_Value :: pyfloat
  Order_Count :: nat
  Total_Quantity :: int

definition metric_of :: "unified list \<Rightarrow> string \<Rightarrow> customer_metric" where
  "metric_of data k =
     (let g = group_rows coustomer_key k data
      in \<lparr>cm_coustomer_key = k,
          Total_Spent = np_round2 (group_sum (map total_price g)),
          Avg_Order_Value = fround2 (group_mean (map total_price g)),
          Order_Count = length g,
          Total_Quantity = int64 (sum_list (map quantity g))\<rparr>)"


text \<open>
  \<^verbatim>\<open>Series.quantile(q)\<close> with the default linear interpolation: the position \<open>(n - 1) * q\<close> in
  the sorted values, interpolated between its two neighbours; NaN (\<open>None\<close>) for no values.
\<close>

definition interp :: "rat list \<Rightarrow> rat \<Rightarrow> rat" where
  "interp s q =
     (let pos = of_nat (length s - 1) * q;
          lo = nat \<lfloor>pos\<rfloor>;
          hi = min (lo + 1) (length s - 1);
          frac = pos - of_int \<lfloor>pos\<rfloor>
      in s ! lo + (s ! hi - s ! lo) * frac)"

definition quantile :: "rat list \<Rightarrow> rat \<Rightarrow> rat option" where
  "quantile xs q = (if xs = [] then None else Some (interp (sort xs) q))"

text \<open>\<^verbatim>\<open>x >= q\<close> for a quantile \<open>q\<close>: false when the quantile is NaN.\<close>

definition ge_quantile :: "rat \<Rightarrow> rat option \<Rightarrow> bool" where
  "ge_quantile x q = (case q of None \<Rightarrow> False | Some v \<Rightarrow> v \<le> x)"

text \<open>
  The labels \<^verbatim>\<open>"VIP Customers"\<close>, \<^verbatim>\<open>"Loyal Customers"\<close>, \<^verbatim>\<open>"Regular Customers"\<close> and
  \<^verbatim>\<open>"One-time Buyers"\<close>.
\<close>

datatype segment = VIP_Customers | Loyal_Customers | Regular_Customers | One_time_Buyers

text \<open>
  The closure \<^verbatim>\<open>segment_customers(row)\<close>; its free variable \<^verbatim>\<open>customer_metrics\<close> is the first
  argument.
\<close>

definition segment_customers :: "customer_metric list \<Rightarrow> customer_metric \<Rightarrow> segment" where
  "segment_customers cms row =
     (if Order_Count row \<ge> 5
         \<and> ge_quantile (Total_Spent row) (quantile (map Total_Spent cms) (3 / 4))
      then VIP_Customers
      else if Order_Count row \<ge> 3
         \<and> ge_quantile (Total_Spent row) (quantile (map Total_Spent cms) (1 / 2))
      then Loyal_Customers
      else if Order_Count row \<ge> 2 then Regular_Customers
      else One_time_Buyers)"



text \<open>The order of the labels, from the lowest priority to the highest.\<close>

fun priority :: "segment \<Rightarrow> nat" where
  "priority One_time_Buyers = 0"
| "priority Regular_Customers = 1"
| "priority Loyal_Customers = 2"
| "priority VIP_Customers = 3"

subsection \<open>The segmentation rule in the words of the specification\<close>


definition spec_total_spent :: "unified list \<Rightarrow> string \<Rightarrow> rat" where
  "spec_total_spent data k = sum_list [total_price r. r \<leftarrow> data, coustomer_key r = Some k]"

definition spec_rounded_total :: "unified list \<Rightarrow> string \<Rightarrow> rat" where
  "spec_rounded_total data k =
     np_round2 (group_sum [total_price r. r \<leftarrow> data, coustomer_key r = Some k])"

definition spec_order_count :: "unified list \<Rightarrow> string \<Rightarrow> nat" where
  "spec_order_count data k = length [r \<leftarrow> data. coustomer_key r = Some k]"



subsection \<open>Partners in a merge\<close>

text \<open>
  What a left merge may put beside a left row of key \<open>k\<close>: nothing when no right row has the
  key, else a right row with the key. The predicate states the rows of the comprehensive
  table in the proofs below.
\<close>

definition partner :: "('b \<Rightarrow> 'k) \<Rightarrow> 'k \<Rightarrow> 'b list \<Rightarrow> 'b option \<Rightarrow> bool" where
  "partner kr k rs ro \<longleftrightarrow>
     (case ro of None \<Rightarrow> filter (\<lambda>r. kr r = k) rs = [] | Some r \<Rightarrow> r \<in> set rs \<and> kr r = k)"

subsection \<open>A small data set\<close>

text \<open>
  Two fact rows and their dimension tables, for evaluating the pipeline. The second fact
  row has a customer key without a customer row, an item without a description, a time row
  whose date text does not parse, and a total price of 0 at a unit price of 10. The parser
  stands for \<^verbatim>\<open>pd.to_datetime\<close> on these two texts: 20 May 2017 has the ordinal 736469.
\<close>

definition ex_facts :: "fact_row list" where
  "ex_facts =
     [\<lparr>payment_key = Some ''P001'', coustomer_key = Some ''C001'', time_key = Some ''T001'',
       item_key = Some ''I001'', store_key = Some ''S001'',
       quantity = 2, unit_price = 10, total_price = 20\<rparr>,
      \<lparr>payment_key = Some ''P001'', coustomer_key = Some ''C404'', time_key = Some ''T002'',
       item_key = Some ''I002'', store_key = Some ''S001'',
       quantity = 1, unit_price = 10, total_price = 0\<rparr>]"

definition ex_customers :: "customer_row list" where
  "ex_customers = [\<lparr>cd_coustomer_key = Some ''C001'', cd_name = Some ''Ann''\<rparr>]"

definition ex_items :: "item_row list" where
  "ex_items =
     [\<lparr>id_item_key = Some ''I001'', id_item_name = Some ''Phone'',
       id_desc = Some ''Electronics - Phones'', id_man_country = Some ''India'',
       id_supplier = None\<rparr>,
      \<lparr>id_item_key = Some ''I002'', id_item_name = Some ''Gift'',
       id_desc = None, id_man_country = None, id_supplier = None\<rparr>]"

definition ex_stores :: "store_row list" where
  "ex_stores = [\<lparr>sd_store_key = Some ''S001'', sd_division = Some ''Dhaka'',
                 sd_district = Some ''Dhaka''\<rparr>]"

definition ex_times :: "string time_row list" where
  "ex_times =
     [\<lparr>td_time_key = Some ''T001'', td_date = Some ''20-05-2017 14:56'', td_year = Some 2017,
       td_month = Some 5, td_quarter = Some ''Q2''\<rparr>,
      \<lparr>td_time_key = Some ''T002'', td_date = Some ''not a date'', td_year = Some 2017,
       td_month = Some 5, td_quarter = Some ''Q2''\<rparr>]"

definition ex_trans :: "trans_row list" where
  "ex_trans = [\<lparr>tr_payment_key = Some ''P001'', tr_trans_type = Some ''card'',
                tr_bank_name = Some ''None''\<rparr>]"

definition ex_to_datetime :: "string \<Rightarrow> timestamp option" where
  "ex_to_datetime s =
     (if s = ''20-05-2017 14:56''
      then Some \<lparr>ts_date = 736469, ts_hour = 14, ts_minute = 56\<rparr> else None)"

definition ex_data :: "unified list" where
  "ex_data = comprehensive_data ex_to_datetime ex_facts ex_customers ex_items ex_stores
               ex_times ex_trans"

text \<open>
  Two records of one customer, bought in a store of Dhaka by card and in a store of Khulna in
  cash, both on 20 May 2017.
\<close>

definition ex_mixed_facts :: "fact_row list" where
  "ex_mixed_facts =
     [\<lparr>payment_key = Some ''P001'', coustomer_key = Some ''C001'', time_key = Some ''T001'',
       item_key = Some ''I001'', store_key = Some ''S001'',
       quantity = 2, unit_price = 10, total_price = 20\<rparr>,
      \<lparr>payment_key = Some ''P002'', coustomer_key = Some ''C001'', time_key = Some ''T001'',
       item_key = Some ''I001'', store_key = Some ''S002'',
       quantity = 1, unit_price = 5, total_price = 5\<rparr>]"

definition ex_mixed_stores :: "store_row list" where
  "ex_mixed_stores =
     [\<lparr>sd_store_key = Some ''S001'', sd_division = Some ''Dhaka'', sd_district = Some ''Dhaka''\<rparr>,
      \<lparr>sd_store_key = Some ''S002'', sd_division = Some ''Khulna'',
       sd_district = Some ''Khulna''\<rparr>]"

definition ex_mixed_trans :: "trans_row list" where
  "ex_mixed_trans =
     [\<lparr>tr_payment_key = Some ''P001'', tr_trans_type = Some ''card'',
       tr_bank_name = Some ''City Bank''\<rparr>,
      \<lparr>tr_payment_key = Some ''P002'', tr_trans_type = Some ''cash'',
       tr_bank_name = Some ''None''\<rparr>]"

definition ex_mixed :: "unified list" where
  "ex_mixed = comprehensive_data ex_to_datetime ex_mixed_facts ex_customers ex_items
                ex_mixed_stores ex_times ex_mixed_trans"



text \<open>The two records with a date each, the second one given the date 20 June 2017.\<close>

definition ex_dated :: "unified list" where
  "ex_dated =
     [ex_data ! 0,
      (ex_data ! 1)\<lparr>date := Some \<lparr>ts_date = 736500, ts_hour = 9, ts_minute = 30\<rparr>\<rparr>]"

text \<open>
  The scenario of the specification as a table of customer metrics: order counts 1, 2, 4, 6
  and totals 10, 50, 200, 900; and the third customer with one more order and a higher total.
\<close>

definition ex_cms :: "customer_metric list" where
  "ex_cms =
     [\<lparr>cm_coustomer_key = ''C001'', Total_Spent = 10, Avg_Order_Value = Fin 10,
       Order_Count = 1, Total_Quantity = 1\<rparr>,
      \<lparr>cm_coustomer_key = ''C002'', Total_Spent = 50, Avg_Order_Value = Fin 25,
       Order_Count = 2, Total_Quantity = 2\<rparr>,
      \<lparr>cm_coustomer_key = ''C003'', Total_Spent = 200, Avg_Order_Value = Fin 50,
       Order_Count = 4, Total_Quantity = 4\<rparr>,
      \<lparr>cm_coustomer_key = ''C004'', Total_Spent = 900, Avg_Order_Value = Fin 150,
       Order_Count = 6, Total_Quantity = 6\<rparr>]"

definition ex_raised :: customer_metric where
  "ex_raised = \<lparr>cm_coustomer_key = ''C003'', Total_Spent = 1000, Avg_Order_Value = Fin 200,
                 Order_Count = 5, Total_Quantity = 5\<rparr>"





section \<open>Properties\<close>

subsection \<open>Splitting and the main category\<close>

lemma split_acc_not_Nil: "split_acc acc s \<noteq> []"
  by (induction acc s rule: split_acc.induct) auto






lemmas mc_eval = main_category_def delim_def py_split_def strip_def lstrip_def rstrip_def
  is_space_def str_nan_def










subsection \<open>Table loader\<close>

lemma try_encodings_first:
  "i < length es \<Longrightarrow> \<forall>j<i. rd (es ! j) = UnicodeDecodeError \<Longrightarrow> rd (es ! i) = Parsed t
   \<Longrightarrow> try_encodings rd es = Inr t"
proof (induction es arbitrary: i)
  case Nil then show ?case by simp
next
  case (Cons e es)
  show ?case
  proof (cases i)
    case 0 with Cons.prems show ?thesis by simp
  next
    case (Suc k)
    have "0 < i" using Suc by simp
    with Cons.prems(2) have "rd ((e # es) ! 0) = UnicodeDecodeError" by blast
    then have e: "rd e = UnicodeDecodeError" by simp
    have "try_encodings rd es = Inr t"
    proof (rule Cons.IH[of k])
      show "k < length es" using Cons.prems(1) Suc by simp
      show "\<forall>j<k. rd (es ! j) = UnicodeDecodeError"
      proof (intro allI impI)
        fix j assume "j < k"
        then have "Suc j < i" using Suc by simp
        with Cons.prems(2) have "rd ((e # es) ! Suc j) = UnicodeDecodeError" by blast
        then show "rd (es ! j) = UnicodeDecodeError" by simp
      qed
      show "rd (es ! k) = Parsed t" using Cons.prems(3) Suc by simp
    qed
    with e show ?thesis by simp
  qed
qed

lemma try_encodings_all_fail:
  "\<forall>e\<in>set es. rd e = UnicodeDecodeError \<Longrightarrow> try_encodings rd es = Inl CouldNotLoad"
  by (induction es) auto

lemma load_first_parsed:
  assumes "i < length encodings" "\<forall>j<i. read_csv f (encodings ! j) = UnicodeDecodeError"
    "read_csv f (encodings ! i) = Parsed t"
  shows "load_csv_with_encoding read_csv f = Inr t"
  unfolding load_csv_with_encoding_def
  by (rule try_encodings_first[OF assms])

lemma load_absent:
  assumes "\<forall>e. read_csv f e = Raised FileNotFoundError"
  shows "load_csv_with_encoding read_csv f = Inl FileNotFoundError"
proof -
  have "read_csv f ''utf-8'' = Raised FileNotFoundError" using assms by blast
  then show ?thesis by (simp add: load_csv_with_encoding_def encodings_def)
qed

text \<open>
  Claim C7. The loader tries utf-8, latin-1, iso-8859-1, cp1252, utf-8-sig in this order and
  returns the table of the first encoding that parses, every earlier one having failed with a
  decode error. It fails when every encoding fails with a decode error (the exception raised
  behind the loop) and when the file is absent (the exception of the first read, which the
  loader does not catch).
\<close>

theorem load_csv_encoding_fallback:
  "encodings = [''utf-8'', ''latin-1'', ''iso-8859-1'', ''cp1252'', ''utf-8-sig'']
   \<and> (i < length encodings \<and> (\<forall>j<i. read_csv f (encodings ! j) = UnicodeDecodeError)
        \<and> read_csv f (encodings ! i) = Parsed t
      \<longrightarrow> load_csv_with_encoding read_csv f = Inr t)
   \<and> ((\<forall>e\<in>set encodings. read_csv f e = UnicodeDecodeError)
      \<longrightarrow> load_csv_with_encoding read_csv f = Inl CouldNotLoad)
   \<and> ((\<forall>e. read_csv f e = Raised FileNotFoundError)
      \<longrightarrow> load_csv_with_encoding read_csv f = Inl FileNotFoundError)"
proof (intro conjI impI)
  show "encodings = [''utf-8'', ''latin-1'', ''iso-8859-1'', ''cp1252'', ''utf-8-sig'']"
    by (rule encodings_def)
next
  assume a: "i < length encodings \<and> (\<forall>j<i. read_csv f (encodings ! j) = UnicodeDecodeError)
        \<and> read_csv f (encodings ! i) = Parsed t"
  show "load_csv_with_encoding read_csv f = Inr t"
    by (rule load_first_parsed[of i read_csv f t]) (use a in blast)+
next
  assume "\<forall>e\<in>set encodings. read_csv f e = UnicodeDecodeError"
  then show "load_csv_with_encoding read_csv f = Inl CouldNotLoad"
    unfolding load_csv_with_encoding_def by (rule try_encodings_all_fail)
next
  assume "\<forall>e. read_csv f e = Raised FileNotFoundError"
  then show "load_csv_with_encoding read_csv f = Inl FileNotFoundError"
    by (rule load_absent)
qed

theorem load_csv_encoding_fallback_witness:
  "load_csv_with_encoding (\<lambda>f e. if e = ''utf-8'' then UnicodeDecodeError else Parsed (7::nat))
      ''fact_table.csv'' = Inr 7
   \<and> load_csv_with_encoding (\<lambda>f e. UnicodeDecodeError :: nat read_result) ''fact_table.csv''
      = Inl CouldNotLoad
   \<and> load_csv_with_encoding (\<lambda>f e. Raised FileNotFoundError :: nat read_result)
      ''fact_table.csv'' = Inl FileNotFoundError"
proof -
  let ?rd = "\<lambda>(f::string) e. if e = ''utf-8'' then UnicodeDecodeError else Parsed (7::nat)"
  have h1: "(1::nat) < length encodings" by (simp add: encodings_def)
  have h2: "\<forall>j<(1::nat). ?rd ''fact_table.csv'' (encodings ! j) = UnicodeDecodeError"
    by (simp add: encodings_def)
  have h3: "?rd ''fact_table.csv'' (encodings ! 1) = Parsed 7"
    by (simp add: encodings_def)
  have c1: "load_csv_with_encoding ?rd ''fact_table.csv'' = Inr 7"
    using load_csv_encoding_fallback[of 1 ?rd "''fact_table.csv''" 7] h1 h2 h3 by simp
  have c2: "load_csv_with_encoding (\<lambda>f e. UnicodeDecodeError :: nat read_result)
      ''fact_table.csv'' = Inl CouldNotLoad"
    using load_csv_encoding_fallback[of 0 "\<lambda>f e. UnicodeDecodeError :: nat read_result"
        "''fact_table.csv''" 0] by simp
  have c3: "load_csv_with_encoding (\<lambda>f e. Raised FileNotFoundError :: nat read_result)
      ''fact_table.csv'' = Inl FileNotFoundError"
    using load_csv_encoding_fallback[of 0 "\<lambda>f e. Raised FileNotFoundError :: nat read_result"
        "''fact_table.csv''" 0] by simp
  from c1 c2 c3 show ?thesis by (intro conjI)
qed

subsection \<open>Left merges\<close>

lemma merge_left_Cons:
  "merge_left kl kr (a # ls) rs =
     (case filter (\<lambda>r. kr r = kl a) rs of
        [] \<Rightarrow> [(a, None)]
      | ms \<Rightarrow> map (\<lambda>r. (a, Some r)) ms) @ merge_left kl kr ls rs"
  by (simp add: merge_left_def)

lemma merge_row_set_iff:
  "(l, ro) \<in> set (case filter (\<lambda>r. kr r = k) rs of
                          [] \<Rightarrow> [(a, None)]
                        | ms \<Rightarrow> map (\<lambda>r. (a, Some r)) ms) \<longleftrightarrow>
     l = a \<and> (case ro of None \<Rightarrow> filter (\<lambda>r. kr r = k) rs = []
              | Some r \<Rightarrow> r \<in> set rs \<and> kr r = k)"
proof (cases "filter (\<lambda>r. kr r = k) rs")
  case Nil
  then show ?thesis by (cases ro) (auto simp: filter_empty_conv)
next
  case (Cons m ms)
  have "set (m # ms) = {r \<in> set rs. kr r = k}" using Cons[symmetric] by simp
  then have mem: "\<And>r. r \<in> set (m # ms) \<longleftrightarrow> r \<in> set rs \<and> kr r = k" by blast
  show ?thesis
  proof (cases ro)
    case None
    with Cons show ?thesis by auto
  next
    case (Some r)
    have "(l, Some r) \<in> set (map (\<lambda>r. (a, Some r)) (m # ms)) \<longleftrightarrow> l = a \<and> r \<in> set (m # ms)"
      by auto
    with Cons Some mem show ?thesis by auto
  qed
qed

lemma merge_left_set_iff:
  "(l, ro) \<in> set (merge_left kl kr ls rs) \<longleftrightarrow>
     l \<in> set ls \<and>
     (case ro of None \<Rightarrow> filter (\<lambda>r. kr r = kl l) rs = []
              | Some r \<Rightarrow> r \<in> set rs \<and> kr r = kl l)"
proof (induction ls)
  case Nil show ?case by (simp add: merge_left_def)
next
  case (Cons a ls)
  show ?case
    unfolding merge_left_Cons set_append Un_iff Cons.IH merge_row_set_iff
    by auto
qed

lemma filter_key_distinct:
  "distinct (map kr rs) \<Longrightarrow> length (filter (\<lambda>r. kr r = k) rs) \<le> 1"
proof (induction rs)
  case Nil then show ?case by simp
next
  case (Cons r rs)
  show ?case
  proof (cases "kr r = k")
    case True
    with Cons.prems have "\<forall>x\<in>set rs. kr x \<noteq> k" by (auto simp: image_iff)
    then have "filter (\<lambda>r. kr r = k) rs = []" by (simp add: filter_empty_conv)
    with True show ?thesis by simp
  next
    case False
    with Cons show ?thesis by simp
  qed
qed

lemma merge_left_one_row:
  assumes "distinct (map kr rs)"
  shows "\<exists>ro. (case filter (\<lambda>r. kr r = k) rs of
                  [] \<Rightarrow> [(l, None)]
                | ms \<Rightarrow> map (\<lambda>r. (l, Some r)) ms) = [(l, ro)]"
proof (cases "filter (\<lambda>r. kr r = k) rs")
  case Nil then show ?thesis by simp
next
  case (Cons m ms)
  from filter_key_distinct[OF assms, of k] Cons have "ms = []" by simp
  with Cons show ?thesis by simp
qed

lemma merge_left_fst:
  assumes "distinct (map kr rs)"
  shows "map fst (merge_left kl kr ls rs) = ls"
proof (induction ls)
  case Nil show ?case by (simp add: merge_left_def)
next
  case (Cons l ls)
  from merge_left_one_row[OF assms, where k = "kl l" and l = l] obtain ro where
    "(case filter (\<lambda>r. kr r = kl l) rs of
                  [] \<Rightarrow> [(l, None)]
                | ms \<Rightarrow> map (\<lambda>r. (l, Some r)) ms) = [(l, ro)]" by blast
  then have "merge_left kl kr (l # ls) rs = (l, ro) # merge_left kl kr ls rs"
    by (simp add: merge_left_Cons)
  with Cons.IH show ?case by simp
qed

lemma truncate_extend: "fact_row.truncate (fact_row.extend f m) = f"
  by (cases f) (simp add: fact_row.truncate_def fact_row.extend_def)

lemma truncate_assemble:
  "fact_row.truncate (assemble x) = fst (fst (fst (fst (fst x))))"
  by (simp add: assemble_def truncate_extend split: prod.splits)

lemma item_key_add_main_category [simp]: "id_item_key (add_main_category i) = id_item_key i"
  by (cases i) (simp add: add_main_category_def item_row.extend_def)

lemma item_fields_add_main_category [simp]:
  "id_item_name (add_main_category i) = id_item_name i"
  "id_man_country (add_main_category i) = id_man_country i"
  "id_supplier (add_main_category i) = id_supplier i"
  "id_main_category (add_main_category i) = main_category (id_desc i)"
  by (cases i; simp add: add_main_category_def item_row.extend_def item_cat_row.fields_def)+

lemma time_key_convert_date [simp]: "td_time_key (convert_date dt t) = td_time_key t"
  by (simp add: convert_date_def)

lemma payment_key_replace_None [simp]: "tr_payment_key (replace_None p) = tr_payment_key p"
  by (simp add: replace_None_def)

lemma assemble_fact_fields [simp]:
  "payment_key (assemble (((((f, c), i), s), t), p)) = payment_key f"
  "coustomer_key (assemble (((((f, c), i), s), t), p)) = coustomer_key f"
  "time_key (assemble (((((f, c), i), s), t), p)) = time_key f"
  "item_key (assemble (((((f, c), i), s), t), p)) = item_key f"
  "store_key (assemble (((((f, c), i), s), t), p)) = store_key f"
  "quantity (assemble (((((f, c), i), s), t), p)) = quantity f"
  "unit_price (assemble (((((f, c), i), s), t), p)) = unit_price f"
  "total_price (assemble (((((f, c), i), s), t), p)) = total_price f"
  by (cases f; simp add: assemble_def fact_row.extend_def)+

lemma assemble_dim_fields [simp]:
  "name (assemble (((((f, c), i), s), t), p)) = Option.bind c cd_name"
  "item_name (assemble (((((f, c), i), s), t), p)) = Option.bind i id_item_name"
  "main_category_col (assemble (((((f, c), i), s), t), p)) = map_option id_main_category i"
  "man_country (assemble (((((f, c), i), s), t), p)) = Option.bind i id_man_country"
  "supplier (assemble (((((f, c), i), s), t), p)) = Option.bind i id_supplier"
  "division (assemble (((((f, c), i), s), t), p)) = Option.bind s sd_division"
  "district (assemble (((((f, c), i), s), t), p)) = Option.bind s sd_district"
  "date (assemble (((((f, c), i), s), t), p)) = Option.bind t td_date"
  "year (assemble (((((f, c), i), s), t), p)) = Option.bind t td_year"
  "month (assemble (((((f, c), i), s), t), p)) = Option.bind t td_month"
  "quarter (assemble (((((f, c), i), s), t), p)) = Option.bind t td_quarter"
  "trans_type (assemble (((((f, c), i), s), t), p)) = Option.bind p tr_trans_type"
  "bank_name (assemble (((((f, c), i), s), t), p)) = Option.bind p tr_bank_name"
  "profit_margin (assemble (((((f, c), i), s), t), p))
     = calc_profit_margin (total_price f) (unit_price f)"
  "weekday (assemble (((((f, c), i), s), t), p)) = map_option day_name (Option.bind t td_date)"
  by (cases f; simp add: assemble_def fact_row.extend_def unified.fields_def)+

lemma merge_left_mem:
  "(l, ro) \<in> set (merge_left kl kr ls rs) \<longleftrightarrow> l \<in> set ls \<and> partner kr (kl l) rs ro"
  by (simp add: merge_left_set_iff partner_def)

lemma comprehensive_row_shape:
  "u \<in> set (comprehensive_data dt F C I S T P) \<longleftrightarrow>
   (\<exists>f c i s t p. u = assemble (((((f, c), i), s), t), p) \<and> f \<in> set F
      \<and> partner cd_coustomer_key (coustomer_key f) C c
      \<and> partner id_item_key (item_key f) (map add_main_category I) i
      \<and> partner sd_store_key (store_key f) S s
      \<and> partner td_time_key (time_key f) (map (convert_date dt) T) t
      \<and> partner tr_payment_key (payment_key f) (map replace_None P) p)"
  unfolding comprehensive_data_def Let_def set_map image_iff Bex_def
  by (auto simp: merge_left_mem) blast+

lemma partner_no_key:
  "partner kr k rs ro \<Longrightarrow> k \<notin> kr ` set rs \<Longrightarrow> ro = None"
  by (cases ro) (auto simp: partner_def)

lemma comprehensive_fact_rows:
  assumes "distinct (map cd_coustomer_key C)" "distinct (map id_item_key I)"
    "distinct (map sd_store_key S)" "distinct (map td_time_key T)"
    "distinct (map tr_payment_key P)"
  shows "map fact_row.truncate (comprehensive_data dt F C I S T P) = F"
proof -
  have t: "fact_row.truncate \<circ> assemble = fst \<circ> fst \<circ> fst \<circ> fst \<circ> fst"
    by (rule ext) (simp add: truncate_assemble)
  have dI: "distinct (map id_item_key (map add_main_category I))"
    using assms(2) by (simp add: comp_def)
  have dT: "distinct (map td_time_key (map (convert_date dt) T))"
    using assms(4) by (simp add: comp_def)
  have dP: "distinct (map tr_payment_key (map replace_None P))"
    using assms(5) by (simp add: comp_def)
  show ?thesis
    unfolding comprehensive_data_def Let_def map_map t
    unfolding map_map[symmetric]
    by (simp only: merge_left_fst[OF dP] merge_left_fst[OF dT] merge_left_fst[OF assms(3)]
        merge_left_fst[OF dI] merge_left_fst[OF assms(1)])
qed

lemma ex_data_rows:
  "ex_data =
     [assemble (((((ex_facts ! 0, Some (ex_customers ! 0)),
          Some (add_main_category (ex_items ! 0))), Some (ex_stores ! 0)),
          Some (convert_date ex_to_datetime (ex_times ! 0))), Some (replace_None (ex_trans ! 0))),
      assemble (((((ex_facts ! 1, None),
          Some (add_main_category (ex_items ! 1))), Some (ex_stores ! 0)),
          Some (convert_date ex_to_datetime (ex_times ! 1))), Some (replace_None (ex_trans ! 0)))]"
  by (simp add: ex_data_def comprehensive_data_def merge_left_def ex_facts_def ex_customers_def
      ex_items_def ex_stores_def ex_times_def ex_trans_def)

lemma partner_exists: "\<exists>ro. partner kr k rs ro"
proof (cases "filter (\<lambda>r. kr r = k) rs")
  case Nil
  then have "partner kr k rs None" by (simp add: partner_def)
  then show ?thesis ..
next
  case (Cons m ms)
  then have "m \<in> set (filter (\<lambda>r. kr r = k) rs)" by simp
  then have "partner kr k rs (Some m)" by (simp add: partner_def)
  then show ?thesis ..
qed

lemma set_non_null: "set (non_null xs) = {x. Some x \<in> set xs}"
  by (induction xs) (auto simp: non_null_def split: option.splits)

lemma set_group_keys: "set (group_keys key rows) = {k. \<exists>r\<in>set rows. key r = Some k}"
  by (force simp: group_keys_def set_non_null image_iff)

lemma groupby_sum_keys: "map fst (groupby_sum key val rows) = group_keys key rows"
  by (simp add: groupby_sum_def comp_def)

text \<open>
  Claim C5. When every dimension table has each of its keys once, the comprehensive table
  has exactly the fact rows, one record for each, in their order: projecting its records to
  the fact columns gives the fact table back. A record whose foreign key occurs in no row
  of a dimension has that dimension's columns missing.
\<close>

theorem unify_one_record_per_fact_row:
  assumes "distinct (map cd_coustomer_key customer_dim)"
    and "distinct (map id_item_key item_dim)"
    and "distinct (map sd_store_key store_dim)"
    and "distinct (map td_time_key time_dim)"
    and "distinct (map tr_payment_key trans_dim)"
  shows "map fact_row.truncate
           (comprehensive_data to_datetime fact_table customer_dim item_dim store_dim
              time_dim trans_dim) = fact_table
    \<and> (\<forall>u\<in>set (comprehensive_data to_datetime fact_table customer_dim item_dim store_dim
                    time_dim trans_dim).
         (coustomer_key u \<notin> cd_coustomer_key ` set customer_dim \<longrightarrow> name u = None)
       \<and> (item_key u \<notin> id_item_key ` set item_dim \<longrightarrow>
            item_name u = None \<and> main_category_col u = None \<and> man_country u = None
            \<and> supplier u = None)
       \<and> (store_key u \<notin> sd_store_key ` set store_dim \<longrightarrow>
            division u = None \<and> district u = None)
       \<and> (time_key u \<notin> td_time_key ` set time_dim \<longrightarrow>
            date u = None \<and> year u = None \<and> month u = None \<and> quarter u = None
            \<and> weekday u = None)
       \<and> (payment_key u \<notin> tr_payment_key ` set trans_dim \<longrightarrow>
            trans_type u = None \<and> bank_name u = None))"
proof (intro conjI ballI)
  show "map fact_row.truncate
           (comprehensive_data to_datetime fact_table customer_dim item_dim store_dim
              time_dim trans_dim) = fact_table"
    by (rule comprehensive_fact_rows[OF assms])
next
  fix u
  assume "u \<in> set (comprehensive_data to_datetime fact_table customer_dim item_dim store_dim
                    time_dim trans_dim)"
  then obtain f c i s t p where u: "u = assemble (((((f, c), i), s), t), p)"
    and c: "partner cd_coustomer_key (coustomer_key f) customer_dim c"
    and i: "partner id_item_key (item_key f) (map add_main_category item_dim) i"
    and s: "partner sd_store_key (store_key f) store_dim s"
    and t: "partner td_time_key (time_key f) (map (convert_date to_datetime) time_dim) t"
    and p: "partner tr_payment_key (payment_key f) (map replace_None trans_dim) p"
    unfolding comprehensive_row_shape by blast
  have ki: "id_item_key ` set (map add_main_category item_dim) = id_item_key ` set item_dim"
    by (simp add: image_image)
  have kt: "td_time_key ` set (map (convert_date to_datetime) time_dim)
              = td_time_key ` set time_dim"
    by (simp add: image_image)
  have kp: "tr_payment_key ` set (map replace_None trans_dim) = tr_payment_key ` set trans_dim"
    by (simp add: image_image)
  show "coustomer_key u \<notin> cd_coustomer_key ` set customer_dim \<longrightarrow> name u = None"
    using partner_no_key[OF c] by (simp add: u)
  show "item_key u \<notin> id_item_key ` set item_dim \<longrightarrow>
            item_name u = None \<and> main_category_col u = None \<and> man_country u = None
            \<and> supplier u = None"
    using partner_no_key[OF i, unfolded ki] by (simp add: u)
  show "store_key u \<notin> sd_store_key ` set store_dim \<longrightarrow>
            division u = None \<and> district u = None"
    using partner_no_key[OF s] by (simp add: u)
  show "time_key u \<notin> td_time_key ` set time_dim \<longrightarrow>
            date u = None \<and> year u = None \<and> month u = None \<and> quarter u = None
            \<and> weekday u = None"
    using partner_no_key[OF t, unfolded kt] by (simp add: u)
  show "payment_key u \<notin> tr_payment_key ` set trans_dim \<longrightarrow>
            trans_type u = None \<and> bank_name u = None"
    using partner_no_key[OF p, unfolded kp] by (simp add: u)
qed

theorem unify_one_record_per_fact_row_witness:
  "distinct (map cd_coustomer_key ex_customers)
   \<and> distinct (map id_item_key ex_items)
   \<and> distinct (map sd_store_key ex_stores)
   \<and> distinct (map td_time_key ex_times)
   \<and> distinct (map tr_payment_key ex_trans)
   \<and> map fact_row.truncate ex_data = ex_facts
   \<and> map coustomer_key ex_data = [Some ''C001'', Some ''C404'']
   \<and> Some ''C404'' \<notin> cd_coustomer_key ` set ex_customers
   \<and> map name ex_data = [Some ''Ann'', None]"
proof -
  have d1: "distinct (map cd_coustomer_key ex_customers)" by (simp add: ex_customers_def)
  have d2: "distinct (map id_item_key ex_items)" by (simp add: ex_items_def)
  have d3: "distinct (map sd_store_key ex_stores)" by (simp add: ex_stores_def)
  have d4: "distinct (map td_time_key ex_times)" by (simp add: ex_times_def)
  have d5: "distinct (map tr_payment_key ex_trans)" by (simp add: ex_trans_def)
  note th = unify_one_record_per_fact_row[OF d1 d2 d3 d4 d5, of ex_to_datetime ex_facts,
      folded ex_data_def]
  from th have c1: "map fact_row.truncate ex_data = ex_facts" by (rule conjunct1)
  have keys: "map coustomer_key ex_data = [Some ''C001'', Some ''C404'']"
    by (simp add: ex_data_rows ex_facts_def)
  have nokey: "Some ''C404'' \<notin> cd_coustomer_key ` set ex_customers"
    by (simp add: ex_customers_def)
  have u1: "ex_data ! 1 \<in> set ex_data" by (simp add: ex_data_rows)
  have k1: "coustomer_key (ex_data ! 1) = Some ''C404''" by (simp add: ex_data_rows ex_facts_def)
  from th[THEN conjunct2, THEN bspec, OF u1, THEN conjunct1] k1 nokey
  have n1: "name (ex_data ! 1) = None" by metis
  have n0: "name (ex_data ! 0) = Some ''Ann''" by (simp add: ex_data_rows ex_customers_def)
  have "map name ex_data = [name (ex_data ! 0), name (ex_data ! 1)]"
    by (simp add: ex_data_rows)
  with n0 n1 have names: "map name ex_data = [Some ''Ann'', None]" by simp
  from d1 d2 d3 d4 d5 c1 keys nokey names show ?thesis by (intro conjI)
qed

subsection \<open>Profit margin\<close>






subsection \<open>A missing description\<close>

lemma main_category_None: "main_category None = ''nan''"
  by (simp add: mc_eval)

text \<open>
  Claim C10. For an item row whose description is missing, \<open>main_category\<close> is the text
  \<^verbatim>\<open>nan\<close>, not a missing value: every fact row of such an item has a record with the category
  \<^verbatim>\<open>nan\<close>, and the category sums have a group of that name.
\<close>

theorem missing_description_category_nan:
  "main_category None = ''nan''
   \<and> (\<forall>f\<in>set fact_table. \<forall>i\<in>set item_dim.
        id_desc i = None \<and> id_item_key i = item_key f \<longrightarrow>
          (\<exists>u\<in>set (comprehensive_data to_datetime fact_table customer_dim item_dim store_dim
                      time_dim trans_dim).
             fact_row.truncate u = f \<and> main_category_col u = Some ''nan'')
          \<and> ''nan'' \<in> fst ` set (groupby_sum main_category_col total_price
               (comprehensive_data to_datetime fact_table customer_dim item_dim store_dim
                  time_dim trans_dim)))"
proof (intro conjI ballI impI)
  show "main_category None = ''nan''" by (rule main_category_None)
next
  fix f i
  assume f: "f \<in> set fact_table" and i: "i \<in> set item_dim"
    and h: "id_desc i = None \<and> id_item_key i = item_key f"
  let ?D = "comprehensive_data to_datetime fact_table customer_dim item_dim store_dim
                      time_dim trans_dim"
  obtain c where c: "partner cd_coustomer_key (coustomer_key f) customer_dim c"
    using partner_exists[of cd_coustomer_key "coustomer_key f" customer_dim] ..
  obtain s where s: "partner sd_store_key (store_key f) store_dim s"
    using partner_exists[of sd_store_key "store_key f" store_dim] ..
  obtain t where t: "partner td_time_key (time_key f) (map (convert_date to_datetime) time_dim) t"
    using partner_exists[of td_time_key "time_key f" "map (convert_date to_datetime) time_dim"] ..
  obtain p where p: "partner tr_payment_key (payment_key f) (map replace_None trans_dim) p"
    using partner_exists[of tr_payment_key "payment_key f" "map replace_None trans_dim"] ..
  have ip: "partner id_item_key (item_key f) (map add_main_category item_dim)
              (Some (add_main_category i))"
    using i h by (simp add: partner_def)
  define u where "u = assemble (((((f, c), Some (add_main_category i)), s), t), p)"
  have mem: "u \<in> set ?D"
    unfolding comprehensive_row_shape u_def using f c ip s t p by blast
  have tr: "fact_row.truncate u = f" by (simp add: u_def truncate_assemble)
  have cat: "main_category_col u = Some ''nan''"
    using h by (simp add: u_def main_category_None)
  from mem tr cat show "\<exists>u\<in>set ?D. fact_row.truncate u = f \<and> main_category_col u = Some ''nan''"
    by blast
  from mem cat have "''nan'' \<in> set (group_keys main_category_col ?D)"
    unfolding set_group_keys by blast
  then show "''nan'' \<in> fst ` set (groupby_sum main_category_col total_price ?D)"
    by (simp only: set_map[symmetric] groupby_sum_keys)
qed

theorem missing_description_category_nan_witness:
  "id_desc (ex_items ! 1) = None
   \<and> id_item_key (ex_items ! 1) = item_key (ex_facts ! 1)
   \<and> map main_category_col ex_data = [Some ''Electronics'', Some ''nan'']
   \<and> ''nan'' \<in> fst ` set (groupby_sum main_category_col total_price ex_data)"
proof -
  have h1: "id_desc (ex_items ! 1) = None" by (simp add: ex_items_def)
  have h2: "id_item_key (ex_items ! 1) = item_key (ex_facts ! 1)"
    by (simp add: ex_items_def ex_facts_def)
  have f: "ex_facts ! 1 \<in> set ex_facts" by (simp add: ex_facts_def)
  have i: "ex_items ! 1 \<in> set ex_items" by (simp add: ex_items_def)
  note th = missing_description_category_nan[of ex_facts ex_items ex_to_datetime ex_customers
      ex_stores ex_times ex_trans, folded ex_data_def]
  from th[THEN conjunct2, THEN bspec, OF f, THEN bspec, OF i] h1 h2
  have g: "''nan'' \<in> fst ` set (groupby_sum main_category_col total_price ex_data)"
    by blast
  have cats: "map main_category_col ex_data = [Some ''Electronics'', Some ''nan'']"
    by (simp add: ex_data_rows ex_items_def mc_eval)
  from h1 h2 cats g show ?thesis by (intro conjI)
qed

subsection \<open>Filter stage\<close>

lemma apply_filters_subset:
  "set (apply_filters [lo, hi] divisions payment_methods data)
     \<subseteq> set (filter (in_date_range lo hi) data)"
  by (auto simp: apply_filters_def Let_def)

lemma in_date_range_date: "in_date_range lo hi r \<Longrightarrow> date r \<noteq> None"
  by (auto simp: in_date_range_def split: option.splits)

lemma full_date_range_shape:
  "full_date_range data = Some dr \<Longrightarrow> \<exists>lo hi. dr = [lo, hi]"
  by (auto simp: full_date_range_def split: list.splits)

lemma apply_filters_dates:
  assumes "r \<in> set (apply_filters [lo, hi] divisions payment_methods data)"
  shows "date r \<noteq> None"
proof -
  from assms apply_filters_subset have "r \<in> set (filter (in_date_range lo hi) data)" by blast
  then have "in_date_range lo hi r" by simp
  then show ?thesis by (rule in_date_range_date)
qed

text \<open>
  Claim C9. Whatever the two bounds of the date range, the divisions and the payment methods
  are, no record with a missing date passes the filters; this also holds for the full range,
  from the least to the greatest date that is present.
\<close>

theorem date_filter_excludes_null_dates:
  "(\<forall>r\<in>set (apply_filters [lo, hi] divisions payment_methods data). date r \<noteq> None)
   \<and> (full_date_range data = Some dr \<longrightarrow>
        (\<forall>r\<in>set (apply_filters dr divisions payment_methods data). date r \<noteq> None))"
proof (intro conjI impI ballI)
  fix r assume "r \<in> set (apply_filters [lo, hi] divisions payment_methods data)"
  then show "date r \<noteq> None" by (rule apply_filters_dates)
next
  fix r assume f: "full_date_range data = Some dr"
    and r: "r \<in> set (apply_filters dr divisions payment_methods data)"
  from full_date_range_shape[OF f] obtain a b where "dr = [a, b]" by blast
  with r show "date r \<noteq> None" using apply_filters_dates by blast
qed

lemma ex_dates: "map date ex_data = [Some \<lparr>ts_date = 736469, ts_hour = 14, ts_minute = 56\<rparr>, None]"
  by (simp add: ex_data_rows ex_times_def ex_to_datetime_def convert_date_def)

lemma ex_full_range: "full_date_range ex_data = Some [736469, 736469]"
  by (simp add: full_date_range_def ex_dates non_null_def)

lemma ex_filtered: "apply_filters [736469, 736469] [] [] ex_data = [ex_data ! 0]"
proof -
  have d0: "date (ex_data ! 0) = Some \<lparr>ts_date = 736469, ts_hour = 14, ts_minute = 56\<rparr>"
    and d1: "date (ex_data ! 1) = None"
    using ex_dates by (simp_all add: ex_data_rows)
  have l: "ex_data = [ex_data ! 0, ex_data ! 1]" by (simp add: ex_data_rows)
  have "apply_filters [736469, 736469] [] [] [ex_data ! 0, ex_data ! 1] = [ex_data ! 0]"
    using d0 d1 by (simp add: apply_filters_def in_date_range_def)
  with l show ?thesis by simp
qed

theorem date_filter_excludes_null_dates_witness:
  "map date ex_data = [Some \<lparr>ts_date = 736469, ts_hour = 14, ts_minute = 56\<rparr>, None]
   \<and> full_date_range ex_data = Some [736469, 736469]
   \<and> apply_filters [736469, 736469] [] [] ex_data = [ex_data ! 0]
   \<and> date (ex_data ! 0) \<noteq> None"
proof -
  have m: "ex_data ! 0 \<in> set (apply_filters [736469, 736469] [] [] ex_data)"
    by (simp only: ex_filtered list.set insertI1)
  from date_filter_excludes_null_dates[of 736469 736469 "[]" "[]" ex_data,
      THEN conjunct1, THEN bspec, OF m]
  have "date (ex_data ! 0) \<noteq> None" .
  with ex_dates ex_full_range ex_filtered show ?thesis by (intro conjI)
qed

lemma filter_id_all: "(\<forall>x\<in>set xs. P x) \<Longrightarrow> filter P xs = xs"
  by (induction xs) auto

lemma date_in_full_range:
  assumes r: "r \<in> set data" and d: "date r = Some t"
    and f: "full_date_range data = Some [lo, hi]"
  shows "lo \<le> ts_date t \<and> ts_date t \<le> hi"
proof -
  let ?ds = "map ts_date (non_null (map date data))"
  have "Some t \<in> set (map date data)" using r d by (metis image_eqI set_map)
  then have "t \<in> set (non_null (map date data))" by (simp add: set_non_null)
  then have mem: "ts_date t \<in> set ?ds" by simp
  then have ne: "?ds \<noteq> []" by auto
  from f ne have lo: "lo = Min (set ?ds)" and hi: "hi = Max (set ?ds)"
    by (auto simp: full_date_range_def split: list.splits)
  from mem show ?thesis unfolding lo hi by simp
qed

text \<open>
  Claim C4, as the code has it. When every record has a date, the filters with no division
  selected, no payment method selected and the full date range return the collection
  unchanged, in the same order.
\<close>

theorem filter_identity_when_dates_present:
  assumes "\<forall>r\<in>set data. date r \<noteq> None" and "full_date_range data = Some dr"
  shows "apply_filters dr [] [] data = data"
proof -
  from full_date_range_shape[OF assms(2)] obtain lo hi where dr: "dr = [lo, hi]" by blast
  have "\<forall>r\<in>set data. in_date_range lo hi r"
  proof
    fix r assume r: "r \<in> set data"
    with assms(1) obtain t where t: "date r = Some t" by auto
    from date_in_full_range[OF r t assms(2)[unfolded dr]] t
    show "in_date_range lo hi r" by (simp add: in_date_range_def)
  qed
  then have "filter (in_date_range lo hi) data = data" by (rule filter_id_all)
  then show ?thesis by (simp add: apply_filters_def dr)
qed

theorem filter_identity_when_dates_present_witness:
  "map date ex_dated = [Some \<lparr>ts_date = 736469, ts_hour = 14, ts_minute = 56\<rparr>,
                        Some \<lparr>ts_date = 736500, ts_hour = 9, ts_minute = 30\<rparr>]
   \<and> full_date_range ex_dated = Some [736469, 736500]
   \<and> apply_filters [736469, 736500] [] [] ex_dated = ex_dated"
proof -
  have ds: "map date ex_dated = [Some \<lparr>ts_date = 736469, ts_hour = 14, ts_minute = 56\<rparr>,
                        Some \<lparr>ts_date = 736500, ts_hour = 9, ts_minute = 30\<rparr>]"
    using ex_dates by (simp add: ex_dated_def ex_data_rows)
  have h1: "\<forall>r\<in>set ex_dated. date r \<noteq> None"
    using ds by (simp add: ex_dated_def)
  have h2: "full_date_range ex_dated = Some [736469, 736500]"
    by (simp add: full_date_range_def ds non_null_def)
  from filter_identity_when_dates_present[OF h1 h2] ds h2 show ?thesis by (intro conjI)
qed

text \<open>
  Without the condition the identity fails: in the small data set the second record has no
  date, and the filters with the full date range drop it.
\<close>

theorem filter_identity_counterexample:
  "full_date_range ex_data = Some [736469, 736469]
   \<and> apply_filters [736469, 736469] [] [] ex_data = [ex_data ! 0]
   \<and> length ex_data = 2
   \<and> apply_filters [736469, 736469] [] [] ex_data \<noteq> ex_data"
proof -
  have l: "length ex_data = 2" by (simp add: ex_data_rows)
  have "length (apply_filters [736469, 736469] [] [] ex_data) = 1" by (simp add: ex_filtered)
  with l have "apply_filters [736469, 736469] [] [] ex_data \<noteq> ex_data" by auto
  with ex_full_range ex_filtered l show ?thesis by (intro conjI)
qed

subsection \<open>The empty selection\<close>

lemma main_display_Inr: "main_display data = Inr c \<Longrightarrow> data \<noteq> []"
  by (auto simp: main_display_def strftime_def date_min_def non_null_def
      split: option.splits list.splits sum.splits)

text \<open>
  Claim C6, at a selection that matches no record. In \<open>ex_mixed\<close> the sidebar offers the
  divisions Dhaka and Khulna and the payment methods card and cash. With the default date
  range, the division Dhaka and the payment method cash selected, the filters return the
  empty collection, and \<^verbatim>\<open>main\<close> raises \<^verbatim>\<open>ValueError\<close> at the sidebar line, before the branch on
  \<^verbatim>\<open>len(data) > 0\<close>. So it does for every empty collection, and no collection at all reaches
  the message that no data is available; the unfiltered table reaches the sections of the
  dashboard.
\<close>

theorem empty_selection_raises:
  "map division ex_mixed = [Some ''Dhaka'', Some ''Khulna'']
   \<and> map trans_type ex_mixed = [Some ''card'', Some ''cash'']
   \<and> full_date_range ex_mixed = Some [736469, 736469]
   \<and> main_display ex_mixed = Inr Dashboard_sections
   \<and> apply_filters [736469, 736469] [Some ''Dhaka''] [Some ''cash''] ex_mixed = []
   \<and> main_display (apply_filters [736469, 736469] [Some ''Dhaka''] [Some ''cash''] ex_mixed)
        = Inl ValueError
   \<and> main_display [] = Inl ValueError
   \<and> (\<forall>data. main_display data \<noteq> Inr No_data_message)"
proof (intro conjI allI)
  show "map division ex_mixed = [Some ''Dhaka'', Some ''Khulna'']" by code_simp
  show "map trans_type ex_mixed = [Some ''card'', Some ''cash'']" by code_simp
  show "full_date_range ex_mixed = Some [736469, 736469]" by code_simp
  show "main_display ex_mixed = Inr Dashboard_sections" by code_simp
  show e: "apply_filters [736469, 736469] [Some ''Dhaka''] [Some ''cash''] ex_mixed = []"
    by code_simp
  show n: "main_display [] = Inl ValueError"
    by (simp add: main_display_def strftime_def date_min_def non_null_def)
  show "main_display (apply_filters [736469, 736469] [Some ''Dhaka''] [Some ''cash''] ex_mixed)
        = Inl ValueError"
    by (simp only: e n)
next
  fix data
  show "main_display data \<noteq> Inr No_data_message"
  proof
    assume a: "main_display data = Inr No_data_message"
    then have "data \<noteq> []" by (rule main_display_Inr)
    with a show False
      by (auto simp: main_display_def split: sum.splits)
  qed
qed

subsection \<open>Order statistics and quantiles\<close>

lemma sorted_nth_le_iff:
  fixes s :: "'a::linorder list"
  shows "sorted s \<Longrightarrow> k < length s \<Longrightarrow> s ! k \<le> t \<longleftrightarrow> k < length (filter (\<lambda>x. x \<le> t) s)"
proof (induction s arbitrary: k)
  case Nil then show ?case by simp
next
  case (Cons a s)
  show ?case
  proof (cases "a \<le> t")
    case True
    show ?thesis
    proof (cases k)
      case 0 with True show ?thesis by simp
    next
      case (Suc j)
      with Cons.prems have "sorted s" "j < length s" by simp_all
      from Cons.IH[OF this] True Suc show ?thesis by simp
    qed
  next
    case False
    with Cons.prems(1) have all: "\<forall>x\<in>set (a # s). \<not> x \<le> t" by auto
    then have "filter (\<lambda>x. x \<le> t) (a # s) = []" by (simp add: filter_empty_conv)
    moreover have "(a # s) ! k \<in> set (a # s)" using Cons.prems(2) by (rule nth_mem)
    ultimately show ?thesis using all by auto
  qed
qed

lemma length_filter_sort:
  fixes xs :: "'a::linorder list"
  shows "length (filter P (sort xs)) = length (filter P xs)"
  by (simp add: filter_sort)

lemma length_filter_le_pointwise:
  fixes xs ys :: "'a::linorder list"
  shows "list_all2 (\<le>) xs ys \<Longrightarrow>
    length (filter (\<lambda>x. x \<le> t) ys) \<le> length (filter (\<lambda>x. x \<le> t) xs)"
  by (induction rule: list_all2_induct) auto

lemma sort_nth_mono:
  fixes xs ys :: "'a::linorder list"
  assumes "list_all2 (\<le>) xs ys" and "k < length xs"
  shows "sort xs ! k \<le> sort ys ! k"
proof -
  have len: "length ys = length xs" using assms(1) by (simp add: list_all2_lengthD)
  let ?t = "sort ys ! k"
  have "k < length (filter (\<lambda>x. x \<le> ?t) (sort ys))"
    using sorted_nth_le_iff[of "sort ys" k ?t] assms(2) len by simp
  then have "k < length (filter (\<lambda>x. x \<le> ?t) ys)" by (simp only: length_filter_sort)
  also have "\<dots> \<le> length (filter (\<lambda>x. x \<le> ?t) xs)"
    by (rule length_filter_le_pointwise[OF assms(1)])
  finally have "k < length (filter (\<lambda>x. x \<le> ?t) (sort xs))" by (simp only: length_filter_sort)
  then show ?thesis using sorted_nth_le_iff[of "sort xs" k ?t] assms(2) by simp
qed

lemma sort_map_add:
  fixes xs :: "rat list"
  shows "sort (map (\<lambda>x. x + d) xs) = map (\<lambda>x. x + d) (sort xs)"
proof (rule properties_for_sort)
  show "mset (map (\<lambda>x. x + d) (sort xs)) = mset (map (\<lambda>x. x + d) xs)" by simp
  show "sorted (map (\<lambda>x. x + d) (sort xs))"
    by (rule sorted_map_mono) (auto simp: mono_on_def)
qed

lemma quantile_interp: "xs \<noteq> [] \<Longrightarrow> quantile xs q = Some (interp (sort xs) q)"
  by (simp add: quantile_def)

lemma interp_bounds:
  fixes s :: "'a list" and q :: rat
  assumes "s \<noteq> []" "0 \<le> q" "q \<le> 1"
  shows "nat \<lfloor>of_nat (length s - 1) * q\<rfloor> < length s"
    and "min (nat \<lfloor>of_nat (length s - 1) * q\<rfloor> + 1) (length s - 1) < length s"
proof -
  let ?n = "length s"
  have n: "0 < ?n" using assms(1) by simp
  have "(of_nat (?n - 1) :: rat) * q \<le> of_nat (?n - 1) * 1"
    by (rule mult_left_mono) (use assms in simp_all)
  then have "\<lfloor>(of_nat (?n - 1) :: rat) * q\<rfloor> \<le> int (?n - 1)"
    by (simp add: floor_le_iff)
  then have "nat \<lfloor>(of_nat (?n - 1) :: rat) * q\<rfloor> \<le> ?n - 1" by simp
  with n show "nat \<lfloor>of_nat (length s - 1) * q\<rfloor> < length s" by linarith
  from n show "min (nat \<lfloor>of_nat (length s - 1) * q\<rfloor> + 1) (length s - 1) < length s"
    by linarith
qed

lemma interp_mono:
  assumes "length s = length s'" "s \<noteq> []" "0 \<le> q" "q \<le> 1"
    and le: "\<forall>k<length s. s ! k \<le> s' ! k"
  shows "interp s q \<le> interp s' q"
proof -
  let ?pos = "(of_nat (length s - 1) :: rat) * q"
  let ?lo = "nat \<lfloor>?pos\<rfloor>"
  let ?hi = "min (?lo + 1) (length s - 1)"
  let ?f = "?pos - of_int \<lfloor>?pos\<rfloor>"
  have f0: "0 \<le> ?f" and f1: "?f \<le> 1" by linarith+
  have lo: "?lo < length s" and hi: "?hi < length s"
    using interp_bounds[OF assms(2,3,4)] by simp_all
  have a: "s ! ?lo \<le> s' ! ?lo" using le lo by blast
  have b: "s ! ?hi \<le> s' ! ?hi" using le hi by blast
  have e: "\<And>x y. x + (y - x) * ?f = x * (1 - ?f) + y * ?f" by (simp add: algebra_simps)
  have "s ! ?lo * (1 - ?f) + s ! ?hi * ?f \<le> s' ! ?lo * (1 - ?f) + s' ! ?hi * ?f"
    by (intro add_mono mult_right_mono a b) (use f0 f1 in simp_all)
  then show ?thesis
    unfolding interp_def Let_def assms(1)[symmetric] e .
qed

lemma interp_map_add:
  assumes "s \<noteq> []" "0 \<le> q" "q \<le> 1"
  shows "interp (map (\<lambda>x. x + d) s) q = interp s q + d"
proof -
  have lo: "nat \<lfloor>of_nat (length s - 1) * q\<rfloor> < length s"
    and hi: "min (nat \<lfloor>of_nat (length s - 1) * q\<rfloor> + 1) (length s - 1) < length s"
    using interp_bounds[OF assms] by simp_all
  show ?thesis
    unfolding interp_def Let_def length_map
    by (simp only: nth_map[OF lo] nth_map[OF hi]) (simp add: algebra_simps)
qed

subsection \<open>Customer segmentation\<close>

lemma quantile_update_le:
  assumes i: "i < length xs" and up: "xs ! i \<le> x'" and q: "0 \<le> q" "q \<le> 1"
  shows "interp (sort (xs[i := x'])) q \<le> interp (sort xs) q + (x' - xs ! i)"
proof -
  define d where "d = x' - xs ! i"
  have d0: "0 \<le> d" using up by (simp add: d_def)
  have pw: "list_all2 (\<le>) (xs[i := x']) (map (\<lambda>x. x + d) xs)"
  proof (rule list_all2_all_nthI)
    show "length (xs[i := x']) = length (map (\<lambda>x. x + d) xs)" by simp
  next
    fix j assume "j < length (xs[i := x'])"
    then have j: "j < length xs" by simp
    show "xs[i := x'] ! j \<le> map (\<lambda>x. x + d) xs ! j"
    proof (cases "j = i")
      case True
      with i show ?thesis by (simp add: d_def)
    next
      case False
      with j d0 show ?thesis by simp
    qed
  qed
  have ne: "sort (xs[i := x']) \<noteq> []" using i by (metis length_list_update length_sort list.size(3) not_less_zero)
  have ne2: "sort xs \<noteq> []" using i by (metis length_sort list.size(3) not_less_zero)
  have "interp (sort (xs[i := x'])) q \<le> interp (sort (map (\<lambda>x. x + d) xs)) q"
  proof (rule interp_mono[OF _ ne q])
    show "length (sort (xs[i := x'])) = length (sort (map (\<lambda>x. x + d) xs))" by simp
    show "\<forall>k<length (sort (xs[i := x'])). sort (xs[i := x']) ! k \<le> sort (map (\<lambda>x. x + d) xs) ! k"
      using sort_nth_mono[OF pw] by simp
  qed
  also have "\<dots> = interp (sort xs) q + d"
    by (simp only: sort_map_add interp_map_add[OF ne2 q])
  finally show ?thesis by (simp only: d_def)
qed

lemma ge_quantile_update:
  assumes i: "i < length xs" and up: "xs ! i \<le> x'" and q: "0 \<le> q" "q \<le> 1"
    and ge: "ge_quantile (xs ! i) (quantile xs q)"
  shows "ge_quantile x' (quantile (xs[i := x']) q)"
proof -
  have ne: "xs \<noteq> []" "xs[i := x'] \<noteq> []" using i by auto
  from ge have "interp (sort xs) q \<le> xs ! i"
    by (simp add: quantile_interp[OF ne(1)] ge_quantile_def)
  with quantile_update_le[OF i up q] have "interp (sort (xs[i := x'])) q \<le> x'" by linarith
  then show ?thesis by (simp add: quantile_interp[OF ne(2)] ge_quantile_def)
qed

text \<open>
  Claim C2. In a table of customer metrics, replace the row of one customer by a row with
  an order count and a total spent that are not smaller, all other rows unchanged, and take
  the quantiles over the new table: the customer's segment, classified in the new table, has
  a priority that is not lower than before (One-time < Regular < Loyal < VIP).
\<close>

theorem segmentation_monotonic:
  assumes "i < length cms"
    and "Order_Count (cms ! i) \<le> Order_Count row'"
    and "Total_Spent (cms ! i) \<le> Total_Spent row'"
  shows "priority (segment_customers cms (cms ! i))
           \<le> priority (segment_customers (cms[i := row']) row')"
proof -
  let ?xs = "map Total_Spent cms"
  have upd: "map Total_Spent (cms[i := row']) = ?xs[i := Total_Spent row']"
    by (simp add: map_update)
  have i: "i < length ?xs" using assms(1) by simp
  have xi: "?xs ! i = Total_Spent (cms ! i)" using assms(1) by simp
  have up: "?xs ! i \<le> Total_Spent row'" using assms(3) xi by simp
  have g75: "ge_quantile (Total_Spent (cms ! i)) (quantile ?xs (3 / 4))
      \<Longrightarrow> ge_quantile (Total_Spent row') (quantile (map Total_Spent (cms[i := row'])) (3 / 4))"
    unfolding upd xi[symmetric] by (rule ge_quantile_update[OF i up]) simp_all
  have g50: "ge_quantile (Total_Spent (cms ! i)) (quantile ?xs (1 / 2))
      \<Longrightarrow> ge_quantile (Total_Spent row') (quantile (map Total_Spent (cms[i := row'])) (1 / 2))"
    unfolding upd xi[symmetric] by (rule ge_quantile_update[OF i up]) simp_all
  show ?thesis
    using assms(2) g75 g50 unfolding segment_customers_def by (auto split: if_splits)
qed

lemma ex_q: "quantile [10, 50, 200, 900] (3 / 4) = Some 375"
  "quantile [10, 50, 200, 900] (1 / 2) = Some 125"
  "quantile [10, 50, 1000, 900] (3 / 4) = Some 925"
  "quantile [10, 50, 1000, 900] (1 / 2) = Some 475"
  by code_simp+

lemma ex_segments:
  "map (segment_customers ex_cms) ex_cms
     = [One_time_Buyers, Regular_Customers, Loyal_Customers, VIP_Customers]"
  by (simp add: ex_cms_def segment_customers_def ex_q ge_quantile_def)

theorem segmentation_monotonic_witness:
  "Order_Count (ex_cms ! 2) = 4 \<and> Order_Count ex_raised = 5
   \<and> Total_Spent (ex_cms ! 2) = 200 \<and> Total_Spent ex_raised = 1000
   \<and> segment_customers ex_cms (ex_cms ! 2) = Loyal_Customers
   \<and> segment_customers (ex_cms[2 := ex_raised]) ex_raised = VIP_Customers
   \<and> priority (segment_customers ex_cms (ex_cms ! 2))
        \<le> priority (segment_customers (ex_cms[2 := ex_raised]) ex_raised)"
proof -
  have h1: "2 < length ex_cms" by (simp add: ex_cms_def)
  have c: "Order_Count (ex_cms ! 2) = 4" "Order_Count ex_raised = 5"
    "Total_Spent (ex_cms ! 2) = 200" "Total_Spent ex_raised = 1000"
    by (simp_all add: ex_cms_def ex_raised_def)
  have h2: "Order_Count (ex_cms ! 2) \<le> Order_Count ex_raised" by (simp add: c)
  have h3: "Total_Spent (ex_cms ! 2) \<le> Total_Spent ex_raised" by (simp add: c)
  have s1: "segment_customers ex_cms (ex_cms ! 2) = Loyal_Customers"
    by (simp add: ex_cms_def segment_customers_def ex_q ge_quantile_def)
  have s2: "segment_customers (ex_cms[2 := ex_raised]) ex_raised = VIP_Customers"
    by (simp add: ex_cms_def ex_raised_def segment_customers_def ex_q ge_quantile_def)
  from segmentation_monotonic[OF h1 h2 h3] c s1 s2 show ?thesis by (intro conjI)
qed

subsection \<open>Binary floating point\<close>

text \<open>Evaluation of the floor of a fraction and of the bit length of a numeral.\<close>

lemma floor_rat_numeral [simp]:
  "\<lfloor>numeral a / numeral b :: rat\<rfloor> = numeral a div numeral b"
  "\<lfloor>- (numeral a / numeral b) :: rat\<rfloor> = - numeral a div numeral b"
  "\<lfloor>1 / numeral b :: rat\<rfloor> = 1 div numeral b"
  by (metis divide_minus_left floor_divide_of_int_eq of_int_neg_numeral of_int_numeral
        of_int_1)+

lemma bitlen_numeral [simp]:
  "bitlen 1 = 1"
  "bitlen (numeral (num.Bit0 n)) = bitlen (numeral n) + 1"
  "bitlen (numeral (num.Bit1 n)) = bitlen (numeral n) + 1"
  "bitlen (numeral num.One) = 1"
  by (subst compute_bitlen, simp)+


text \<open>
  \<open>ilog2\<close> is the binary exponent, and \<open>b64\<close> is within half a unit in the last place.
\<close>

lemma pow2_pos: "0 < pow2 e"
  by (simp add: pow2_def)

lemma pow2_Suc: "pow2 (e + 1) = 2 * pow2 e"
proof (cases "0 \<le> e")
  case True
  then show ?thesis by (simp add: pow2_def nat_add_distrib)
next
  case False
  then have "nat (- e) = Suc (nat (- (e + 1)))" by simp
  with False show ?thesis by (simp add: pow2_def)
qed

lemma ilog2_ge1:
  assumes "1 \<le> x"
  shows "pow2 (bitlen \<lfloor>x\<rfloor> - 1) \<le> x \<and> x < pow2 (bitlen \<lfloor>x\<rfloor>)"
proof -
  have f: "0 < \<lfloor>x\<rfloor>" using assms by simp
  from bitlen_bounds[OF f] have lo: "2 ^ nat (bitlen \<lfloor>x\<rfloor> - 1) \<le> \<lfloor>x\<rfloor>"
    and hi: "\<lfloor>x\<rfloor> < 2 ^ nat (bitlen \<lfloor>x\<rfloor>)" by simp_all
  have b1: "1 \<le> bitlen \<lfloor>x\<rfloor>" using f by (simp add: bitlen_alt_def)
  from lo have "(of_int (2 ^ nat (bitlen \<lfloor>x\<rfloor> - 1)) :: rat) \<le> of_int \<lfloor>x\<rfloor>"
    by (simp only: of_int_le_iff)
  also have "\<dots> \<le> x" by simp
  finally have l: "pow2 (bitlen \<lfloor>x\<rfloor> - 1) \<le> x" using b1 by (simp add: pow2_def)
  from hi have "\<lfloor>x\<rfloor> + 1 \<le> 2 ^ nat (bitlen \<lfloor>x\<rfloor>)" by simp
  then have "(of_int (\<lfloor>x\<rfloor> + 1) :: rat) \<le> of_int (2 ^ nat (bitlen \<lfloor>x\<rfloor>))"
    by (simp only: of_int_le_iff)
  moreover have "x < of_int (\<lfloor>x\<rfloor> + 1)" by linarith
  ultimately have "x < pow2 (bitlen \<lfloor>x\<rfloor>)" using b1 by (simp add: pow2_def)
  with l show ?thesis ..
qed

lemma ilog2_bounds:
  assumes "0 < x"
  shows "pow2 (ilog2 x) \<le> x \<and> x < pow2 (ilog2 x + 1)"
proof (cases "1 \<le> x")
  case True
  from ilog2_ge1[OF True] have l: "pow2 (bitlen \<lfloor>x\<rfloor> - 1) \<le> x"
    and h: "x < pow2 (bitlen \<lfloor>x\<rfloor>)" by simp_all
  from True l have "ilog2 x = bitlen \<lfloor>x\<rfloor> - 1" by (simp add: ilog2_def)
  with l h show ?thesis by simp
next
  case False
  define y where "y = 1 / x"
  define j where "j = bitlen \<lfloor>y\<rfloor>"
  have y1: "1 \<le> y" using assms False by (simp add: y_def)
  have x: "x = 1 / y" by (simp add: y_def)
  have y0: "0 < y" using y1 by simp
  from ilog2_ge1[OF y1] have l: "pow2 (j - 1) \<le> y" and h: "y < pow2 j"
    by (simp_all add: j_def)
  have inv: "\<And>e. pow2 (- e) = 1 / pow2 e"
    by (simp add: pow2_def)
  have p1: "pow2 (1 - j) = 1 / pow2 (j - 1)" using inv[of "j - 1"] by simp
  have p0: "pow2 (- j) = 1 / pow2 j" by (rule inv)
  have a: "pow2 (- j) \<le> x"
    unfolding p0 x using h y0 pow2_pos[of j] by (simp add: frac_le)
  have b: "x \<le> pow2 (1 - j)"
    unfolding p1 x using l y0 pow2_pos[of "j - 1"] by (simp add: frac_le)
  have c: "ilog2 x = (if pow2 (1 - j) \<le> x then 1 - j else - j)"
    using False by (simp add: ilog2_def Let_def j_def y_def)
  show ?thesis
  proof (cases "pow2 (1 - j) \<le> x")
    case True
    with b have "x = pow2 (1 - j)" by simp
    moreover have "pow2 (1 - j) < pow2 (1 - j + 1)"
      using pow2_pos[of "1 - j"] by (simp only: pow2_Suc)
    ultimately show ?thesis using c True by simp
  next
    case F: False
    then have "x < pow2 (- j + 1)" by simp
    with a c F show ?thesis by simp
  qed
qed

lemma rint_nearest: "\<bar>of_int (rint y) - y\<bar> \<le> 1 / 2"
proof -
  have "of_int \<lfloor>y\<rfloor> \<le> y" "y < of_int \<lfloor>y\<rfloor> + 1" by linarith+
  then show ?thesis by (auto simp: rint_def Let_def abs_le_iff)
qed

lemma b64_error:
  assumes "x \<noteq> 0"
  shows "\<bar>b64 x - x\<bar> \<le> pow2 (max (ilog2 \<bar>x\<bar>) (- 1022) - 52) / 2"
proof -
  define u where "u = pow2 (max (ilog2 \<bar>x\<bar>) (- 1022) - 52)"
  have u: "0 < u" unfolding u_def by (rule pow2_pos)
  have "b64 x - x = (of_int (rint (x / u)) - x / u) * u"
    using assms u by (simp add: b64_def Let_def u_def[symmetric] algebra_simps)
  then have "\<bar>b64 x - x\<bar> = \<bar>of_int (rint (x / u)) - x / u\<bar> * u"
    using u by (simp add: abs_mult)
  also have "\<dots> \<le> 1 / 2 * u"
    by (rule mult_right_mono[OF rint_nearest]) (use u in simp)
  finally show ?thesis by (simp add: u_def)
qed

subsection \<open>The segmentation rule\<close>

lemma group_prices:
  "[total_price r. r \<leftarrow> data, coustomer_key r = Some k]
     = map total_price (group_rows coustomer_key k data)"
  by (induction data) (simp_all add: group_rows_def)

lemma spec_total_spent_eq:
  "spec_total_spent data k = sum_list (map total_price (group_rows coustomer_key k data))"
  by (simp add: spec_total_spent_def group_prices)

lemma spec_rounded_total_eq:
  "spec_rounded_total data k
     = np_round2 (group_sum (map total_price (group_rows coustomer_key k data)))"
  by (simp add: spec_rounded_total_def group_prices)

lemma spec_order_count_eq:
  "spec_order_count data k = length (group_rows coustomer_key k data)"
  by (simp add: spec_order_count_def group_rows_def)


lemma metric_of_fields [simp]:
  "cm_coustomer_key (metric_of data k) = k"
  "Total_Spent (metric_of data k) = spec_rounded_total data k"
  "Order_Count (metric_of data k) = spec_order_count data k"
  by (simp_all add: metric_of_def Let_def spec_rounded_total_eq spec_order_count_eq)




























end
